theory Spec2Isabelle
  imports Main "HOL-Library.Sublist" "HOL-Library.Multiset"
begin

section \<open>Data model of task/models.py\<close>

text \<open>
  The Django models are embedded as records; a table is the list of its rows in primary-key
  order, a foreign key is the primary key it stores, and a many-to-many field is the list of
  the related primary keys (one entry per row of the join table, hence without repetition
  in a real database).
\<close>

datatype status = RUNNING | SUCCESS | FAILED | PENDING

fun status_code :: "status \<Rightarrow> int" where
  "status_code RUNNING = 0"
| "status_code SUCCESS = 1"
| "status_code FAILED = 2"
| "status_code PENDING = 3"

record server =
  server_id :: nat
  server_roles :: "nat list"

record environment =
  environment_name :: string
  environment_servers :: "server list"

record task_command =
  tc_command :: string
  tc_roles :: "nat list"
  tc_order :: int

record task =
  task_name :: string
  task_application_name :: string
  task_commands :: "task_command list"

record execution =
  e_id :: "nat option"
  e_task :: task
  e_time_created :: int
  e_time_start :: "int option"
  e_time_end :: "int option"
  e_time :: "int option"
  e_environment :: environment
  e_user_email :: string
  e_status :: status

record execution_parameter =
  ep_execution :: nat
  ep_name :: string
  ep_value :: string

record execution_command =
  ec_id :: nat
  ec_execution :: nat
  ec_command :: string
  ec_roles :: "nat list"

record execution_command_server =
  ecs_id :: nat
  ecs_execution_command :: nat
  ecs_status :: status
  ecs_time_start :: "int option"
  ecs_time_end :: "int option"
  ecs_time :: "int option"
  ecs_return_code :: "int option"
  ecs_server :: nat
  ecs_output :: string

record execution_live_log =
  ell_id :: nat
  ell_execution :: nat
  ell_event :: string
  ell_data :: string

record db =
  db_executions :: "execution list"
  db_execution_parameters :: "execution_parameter list"
  db_execution_commands :: "execution_command list"
  db_execution_command_servers :: "execution_command_server list"
  db_execution_live_logs :: "execution_live_log list"

datatype py_error = AttributeError string | FieldError string | TypeError

section \<open>Persistence primitives\<close>

text \<open>An automatic primary key: one more than the largest key of the table, so never 0.\<close>

definition fresh_id :: "nat list \<Rightarrow> nat" where
  "fresh_id ids = Suc (foldr max ids 0)"

text \<open>\<open>manager.add(role)\<close> on a many-to-many field: a role already related is not added again.\<close>

definition m2m_add :: "nat list \<Rightarrow> nat \<Rightarrow> nat list" where
  "m2m_add rs r = (if r \<in> set rs then rs else rs @ [r])"

text \<open>
  \<open>servers.filter(roles__in=roles)\<close>: the filter spans the many-to-many relation, so the
  query joins the servers with their role rows and keeps the joined rows whose role is one of
  \<open>roles\<close>; a server comes back once for each of its roles that matches (the source does not
  call \<open>distinct()\<close>).
\<close>

definition filter_roles_in :: "server list \<Rightarrow> nat list \<Rightarrow> server list" where
  "filter_roles_in servers roles =
     concat (map (\<lambda>s. map (\<lambda>r. s) (filter (\<lambda>r. r \<in> set roles) (server_roles s))) servers)"

text \<open>\<open>Task.commands_ordered\<close>: the commands of the task by ascending \<open>order\<close>.\<close>

definition commands_ordered :: "task \<Rightarrow> task_command list" where
  "commands_ordered t = sort_key tc_order (task_commands t)"

text \<open>
  \<open>models.Model.save\<close> for an Execution: a record without primary key is inserted under a
  fresh key and \<open>time_created\<close> (\<open>auto_now_add\<close>) is stamped; a record with a primary key
  replaces the row of that key, or is inserted under it when there is no such row.
\<close>

definition model_save :: "execution \<Rightarrow> int \<Rightarrow> db \<Rightarrow> nat \<times> execution \<times> db" where
  "model_save e now d =
     (case e_id e of
        None \<Rightarrow>
          (let i = fresh_id (map (\<lambda>x. case e_id x of None \<Rightarrow> 0 | Some k \<Rightarrow> k) (db_executions d));
               e' = e\<lparr>e_id := Some i, e_time_created := now\<rparr>
           in (i, e', d\<lparr>db_executions := db_executions d @ [e']\<rparr>))
      | Some i \<Rightarrow>
          (if Some i \<in> set (map e_id (db_executions d))
           then (i, e, d\<lparr>db_executions := map (\<lambda>x. if e_id x = Some i then e else x) (db_executions d)\<rparr>)
           else (let e' = e\<lparr>e_time_created := now\<rparr>
                 in (i, e', d\<lparr>db_executions := db_executions d @ [e']\<rparr>))))"

section \<open>Execution: plan materialization and start\<close>

definition new_execution_command_server :: "nat \<Rightarrow> nat \<Rightarrow> nat \<Rightarrow> execution_command_server" where
  "new_execution_command_server i c s =
     \<lparr>ecs_id = i, ecs_execution_command = c, ecs_status = PENDING, ecs_time_start = None,
      ecs_time_end = None, ecs_time = None, ecs_return_code = None, ecs_server = s,
      ecs_output = []\<rparr>"

definition save_execution_command_server :: "nat \<Rightarrow> db \<Rightarrow> server \<Rightarrow> db" where
  "save_execution_command_server c d s =
     d\<lparr>db_execution_command_servers := db_execution_command_servers d @
          [new_execution_command_server
             (fresh_id (map ecs_id (db_execution_command_servers d))) c (server_id s)]\<rparr>"

definition create_execution_commands_servers ::
    "environment \<Rightarrow> task_command \<Rightarrow> execution_command \<Rightarrow> db \<Rightarrow> db" where
  "create_execution_commands_servers env command execution_command d =
     foldl (save_execution_command_server (ec_id execution_command)) d
       (filter_roles_in (environment_servers env) (tc_roles command))"

definition create_execution_commands :: "nat \<Rightarrow> environment \<Rightarrow> task_command \<Rightarrow> db \<Rightarrow> db" where
  "create_execution_commands self_id env command d =
     (let parsed_command = tc_command command;
          execution_command =
            \<lparr>ec_id = fresh_id (map ec_id (db_execution_commands d)), ec_execution = self_id,
             ec_command = parsed_command, ec_roles = []\<rparr>;
          execution_command =
            execution_command\<lparr>ec_roles := foldl m2m_add (ec_roles execution_command) (tc_roles command)\<rparr>;
          d1 = d\<lparr>db_execution_commands := db_execution_commands d @ [execution_command]\<rparr>
      in create_execution_commands_servers env command execution_command d1)"

definition is_new :: "execution \<Rightarrow> bool" where
  "is_new e = (e_id e = None \<or> e_id e = Some 0)"

definition save :: "execution \<Rightarrow> int \<Rightarrow> db \<Rightarrow> execution \<times> db" where
  "save e now d =
     (case model_save e now d of
        (i, e', d1) \<Rightarrow>
          if \<not> is_new e then (e', d1)
          else (e', foldl (\<lambda>d2 command. create_execution_commands i (e_environment e') command d2)
                      d1 (commands_ordered (e_task e'))))"

text \<open>
  Modelled from the spec: the Worker Queue behind \<open>ExecutionTask().delay\<close> (backend.tasks is
  not part of the source at hand). Each \<open>enqueue\<close> appends one unit of asynchronous work; the
  unit carries the \<open>execution_id\<close> keyword argument it was enqueued with.
\<close>

type_synonym worker_queue = "nat option list"

definition delay :: "nat option \<Rightarrow> worker_queue \<Rightarrow> worker_queue" where
  "delay execution_id q = q @ [execution_id]"

definition start :: "execution \<Rightarrow> worker_queue \<Rightarrow> worker_queue" where
  "start e q = delay (e_id e) q"

section \<open>ExecutionCommandServer.get_live_log_output\<close>

text \<open>
  Attribute lookup of a related manager on an ExecutionCommandServer. The only relation that
  points at this model would have to be declared by a foreign key to it; models.py declares
  none (\<open>live_logs\<close> is the related name of \<open>ExecutionLiveLog.execution\<close>, hence an attribute
  of Execution), so every such lookup raises AttributeError.
\<close>

definition ecs_related_manager ::
    "db \<Rightarrow> execution_command_server \<Rightarrow> string \<Rightarrow> py_error + execution_live_log list" where
  "ecs_related_manager d self name = Inl (AttributeError name)"

text \<open>\<open>Execution.live_logs\<close>: the live-log rows of an execution, in primary-key order.\<close>

definition execution_live_logs :: "db \<Rightarrow> nat \<Rightarrow> execution_live_log list" where
  "execution_live_logs d i = filter (\<lambda>l. ell_execution l = i) (db_execution_live_logs d)"

text \<open>
  \<open>''.join(rows.values_list(field, flat=True))\<close> over ExecutionLiveLog rows: the model has the
  fields id, execution, event and data; an unknown field raises FieldError and joining the
  integer columns raises TypeError.
\<close>

definition join_values_list :: "string \<Rightarrow> execution_live_log list \<Rightarrow> py_error + string" where
  "join_values_list field rows =
     (if field = ''event'' then Inr (concat (map ell_event rows))
      else if field = ''data'' then Inr (concat (map ell_data rows))
      else if field = ''id'' \<or> field = ''execution'' \<or> field = ''execution_id''
        then (if rows = [] then Inr [] else Inl TypeError)
      else Inl (FieldError field))"

definition get_live_log_output :: "db \<Rightarrow> execution_command_server \<Rightarrow> py_error + string" where
  "get_live_log_output d self =
     (case ecs_related_manager d self ''live_logs'' of
        Inl err \<Rightarrow> Inl err
      | Inr live_logs \<Rightarrow> join_values_list ''output'' live_logs)"

section \<open>ParameterParser\<close>

text \<open>
  \<open>str.replace(old, new)\<close>: scanning from the left, every occurrence of \<open>old\<close> that does not
  overlap an occurrence already replaced becomes \<open>new\<close>; the text put in is not scanned
  again. With an empty \<open>old\<close>, \<open>new\<close> goes before every character and at the end.
\<close>

function replace_str :: "string \<Rightarrow> string \<Rightarrow> string \<Rightarrow> string" where
  "replace_str old new [] = (if old = [] then new else [])"
| "replace_str old new (c # cs) =
     (if old = [] then new @ c # replace_str old new cs
      else if prefix old (c # cs) then new @ replace_str old new (drop (length old) (c # cs))
      else c # replace_str old new cs)"
  by pat_completeness auto
termination
  by (relation "measure (\<lambda>(old, new, s). length s)") auto

definition parameter_format :: "string \<Rightarrow> string" where
  "parameter_format name = ''${'' @ name @ ''}''"

text \<open>\<open>str\<close> of an integer, for \<open>gun_time\<close>.\<close>

function str_nat :: "nat \<Rightarrow> string" where
  "str_nat n = (if n < 10 then [''0123456789'' ! n]
                else str_nat (n div 10) @ [''0123456789'' ! (n mod 10)])"
  by pat_completeness auto
termination
  by (relation "measure id") auto

declare str_nat.simps [simp del]

definition str_int :: "int \<Rightarrow> string" where
  "str_int i = (if i < 0 then CHR ''-'' # str_nat (nat (- i)) else str_nat (nat i))"

text \<open>
  \<open>global_parameter_values\<close> as built by \<open>__init__\<close>, written in the order of the dict
  literal. \<open>e_time_created\<close> holds the creation time as Unix seconds (what
  \<open>calendar.timegm\<close> of its UTC time tuple returns). The order in which a dict yields its
  items is not fixed by the language, so the global pass takes the item list as an argument
  and the theorems below hold for every arrangement of the five items.
\<close>

definition global_parameter_values :: "execution \<Rightarrow> (string \<times> string) list" where
  "global_parameter_values e =
     [(''gun_application'', task_application_name (e_task e)),
      (''gun_environment'', environment_name (e_environment e)),
      (''gun_task'', task_name (e_task e)),
      (''gun_user'', e_user_email e),
      (''gun_time'', str_int (e_time_created e))]"

text \<open>The keys of the dict, as in the class attribute \<open>global_parameters\<close>.\<close>

definition global_parameter_names :: "string list" where
  "global_parameter_names = [''gun_application'', ''gun_environment'', ''gun_task'', ''gun_user'', ''gun_time'']"

definition process_global_parameters :: "(string \<times> string) list \<Rightarrow> string \<Rightarrow> string" where
  "process_global_parameters items cmd =
     foldl (\<lambda>cmd (name, value). replace_str (parameter_format name) value cmd) cmd items"

text \<open>\<open>execution.parameters.all()\<close>: the parameter rows of the execution, in primary-key order.\<close>

definition execution_parameters :: "db \<Rightarrow> nat \<Rightarrow> execution_parameter list" where
  "execution_parameters d i = filter (\<lambda>p. ep_execution p = i) (db_execution_parameters d)"

definition process_parameters :: "execution_parameter list \<Rightarrow> string \<Rightarrow> string" where
  "process_parameters execution_params cmd =
     foldl (\<lambda>cmd param. replace_str (parameter_format (ep_name param)) (ep_value param) cmd)
       cmd execution_params"

definition process :: "(string \<times> string) list \<Rightarrow> execution_parameter list \<Rightarrow> string \<Rightarrow> string" where
  "process items execution_params cmd =
     process_parameters execution_params (process_global_parameters items cmd)"

text \<open>
  A name that contains none of the characters of the placeholder wrapper. The names of the
  five globals are of this kind, and so is every name that passes the name validator of
  Task and TaskParameter.
\<close>

definition plain_name :: "string \<Rightarrow> bool" where
  "plain_name n = (CHR ''$'' \<notin> set n \<and> CHR ''{'' \<notin> set n \<and> CHR ''}'' \<notin> set n)"

text \<open>The loop body shared by both passes, and the passes as one sequence of pairs.\<close>

definition subst_step :: "string \<Rightarrow> string \<times> string \<Rightarrow> string" where
  "subst_step cmd p = replace_str (parameter_format (fst p)) (snd p) cmd"

definition subst_all :: "(string \<times> string) list \<Rightarrow> string \<Rightarrow> string" where
  "subst_all ps cmd = foldl subst_step cmd ps"

definition param_pair :: "execution_parameter \<Rightarrow> string \<times> string" where
  "param_pair p = (ep_name p, ep_value p)"

section \<open>Sample data\<close>

definition empty_db :: db where
  "empty_db = \<lparr>db_executions = [], db_execution_parameters = [], db_execution_commands = [],
     db_execution_command_servers = [], db_execution_live_logs = []\<rparr>"

text \<open>One server that carries the roles 1 and 2, and a task whose only command asks for both.\<close>

definition demo_environment :: environment where
  "demo_environment =
     \<lparr>environment_name = ''prod'',
      environment_servers = [\<lparr>server_id = 1, server_roles = [1, 2]\<rparr>]\<rparr>"

definition demo_task :: task where
  "demo_task =
     \<lparr>task_name = ''release'', task_application_name = ''shop'',
      task_commands = [\<lparr>tc_command = ''deploy ${gun_task}'', tc_roles = [1, 2], tc_order = 1\<rparr>]\<rparr>"

definition demo_execution :: execution where
  "demo_execution =
     \<lparr>e_id = None, e_task = demo_task, e_time_created = 0, e_time_start = None,
      e_time_end = None, e_time = None, e_environment = demo_environment,
      e_user_email = ''ops@example.org'', e_status = PENDING\<rparr>"

text \<open>The execution and the database after the first save, and the same execution once it runs.\<close>

definition saved_execution :: execution where
  "saved_execution = fst (save demo_execution 0 empty_db)"

definition saved_db :: db where
  "saved_db = snd (save demo_execution 0 empty_db)"

definition running_execution :: execution where
  "running_execution = demo_execution\<lparr>e_id := Some 1, e_status := RUNNING\<rparr>"

text \<open>A command whose role 3 no server of \<open>demo_environment\<close> carries.\<close>

definition idle_command :: task_command where
  "idle_command = \<lparr>tc_command = ''echo idle'', tc_roles = [3], tc_order = 2\<rparr>"

text \<open>
  User parameters of execution 1: an ordinary one, one named like a global, values that
  contain a placeholder token, and two that name each other. \<open>odd_execution\<close> is an execution
  whose user has a mail address with a token in it.
\<close>

definition param_env :: execution_parameter where
  "param_env = \<lparr>ep_execution = 1, ep_name = ''env'', ep_value = ''prod''\<rparr>"

definition param_shadow :: execution_parameter where
  "param_shadow = \<lparr>ep_execution = 1, ep_name = ''gun_task'', ep_value = ''evil''\<rparr>"

definition param_note :: execution_parameter where
  "param_note = \<lparr>ep_execution = 1, ep_name = ''note'', ep_value = ''see ${gun_task}''\<rparr>"

definition param_contact :: execution_parameter where
  "param_contact = \<lparr>ep_execution = 1, ep_name = ''contact'', ep_value = ''${env}@example.org''\<rparr>"

definition param_a :: execution_parameter where
  "param_a = \<lparr>ep_execution = 1, ep_name = ''a'', ep_value = ''${b}''\<rparr>"

definition param_b :: execution_parameter where
  "param_b = \<lparr>ep_execution = 1, ep_name = ''b'', ep_value = ''${a}''\<rparr>"

definition odd_execution :: execution where
  "odd_execution = demo_execution\<lparr>e_id := Some 1, e_user_email := ''${env}@example.org''\<rparr>"

lemmas param_defs = param_env_def param_shadow_def param_note_def param_contact_def
  param_a_def param_b_def

lemmas process_defs = process_def process_global_parameters_def process_parameters_def
  parameter_format_def

lemmas demo_defs = demo_execution_def demo_task_def demo_environment_def empty_db_def
  saved_execution_def saved_db_def running_execution_def idle_command_def

lemmas save_defs = save_def model_save_def is_new_def commands_ordered_def
  create_execution_commands_def create_execution_commands_servers_def filter_roles_in_def
  save_execution_command_server_def new_execution_command_server_def fresh_id_def m2m_add_def
  Let_def

section \<open>Plan materialization\<close>

lemma saved_execution_eval:
  "saved_execution = demo_execution\<lparr>e_id := Some 1\<rparr>"
  by (simp add: demo_defs save_defs)

lemma saved_db_commands:
  "db_execution_commands saved_db =
     [\<lparr>ec_id = 1, ec_execution = 1, ec_command = ''deploy ${gun_task}'', ec_roles = [1, 2]\<rparr>]"
  by (simp add: demo_defs save_defs)

text \<open>
  C1. Saving a new execution is meant to create one unit per server whose roles meet the
  roles of the command. On \<open>demo_execution\<close> the only server carries both roles of the only
  command, and the save creates two units for that one (command, server) pair: the filter
  over the many-to-many relation returns the server once per matching role.
\<close>

theorem save_duplicates_unit_per_matching_role:
  "map (\<lambda>u. (ecs_execution_command u, ecs_server u)) (db_execution_command_servers saved_db)
     = [(1, 1), (1, 1)]"
  by (simp add: demo_defs save_defs)

text \<open>
  What the loop does in general: the units added for a command are as many as there are
  pairs of a server of the environment and one of its roles that the command asks for.
\<close>

lemma foldl_units_length:
  "length (db_execution_command_servers (foldl (save_execution_command_server c) d ss))
     = length (db_execution_command_servers d) + length ss"
  by (induction ss arbitrary: d) (simp_all add: save_execution_command_server_def)

lemma units_added_per_command:
  "length (db_execution_command_servers (create_execution_commands_servers env command ec d))
     = length (db_execution_command_servers d)
       + sum_list (map (\<lambda>s. length (filter (\<lambda>r. r \<in> set (tc_roles command)) (server_roles s)))
           (environment_servers env))"
  by (simp add: create_execution_commands_servers_def foldl_units_length filter_roles_in_def
      length_concat comp_def)

lemma foldl_units_commands:
  "db_execution_commands (foldl (save_execution_command_server c) d ss) = db_execution_commands d"
  by (induction ss arbitrary: d) (simp_all add: save_execution_command_server_def)

lemma create_servers_keeps_commands:
  "db_execution_commands (create_execution_commands_servers env command ec d) = db_execution_commands d"
  by (simp add: create_execution_commands_servers_def foldl_units_commands)

lemma create_execution_commands_rows:
  "db_execution_commands (create_execution_commands i env command d)
     = db_execution_commands d @
       [\<lparr>ec_id = fresh_id (map ec_id (db_execution_commands d)), ec_execution = i,
         ec_command = tc_command command, ec_roles = foldl m2m_add [] (tc_roles command)\<rparr>]"
  by (simp add: create_execution_commands_def Let_def create_servers_keeps_commands)

lemma foldl_create_texts:
  "map ec_command (db_execution_commands
       (foldl (\<lambda>d2 command. create_execution_commands i env command d2) d cs))
     = map ec_command (db_execution_commands d) @ map tc_command cs"
  by (induction cs arbitrary: d) (simp_all add: create_execution_commands_rows)

lemma model_save_plan:
  "model_save e now d = (i, e', d1) \<Longrightarrow>
     db_execution_commands d1 = db_execution_commands d \<and>
     db_execution_command_servers d1 = db_execution_command_servers d"
  by (auto simp: model_save_def Let_def split: option.splits if_splits)

lemma model_save_task:
  "model_save e now d = (i, e', d1) \<Longrightarrow> e_task e' = e_task e \<and> e_environment e' = e_environment e"
  by (auto simp: model_save_def Let_def split: option.splits if_splits)

text \<open>
  C2, as the code has it. Saving a new execution stores, for the commands of the task in
  rank order, the command text of each TaskCommand as it is: \<open>parsed_command\<close> is the raw
  text, and no parameter is substituted while the plan is materialized.
\<close>

theorem save_stores_raw_command_text:
  assumes "is_new e"
  shows "map ec_command (db_execution_commands (snd (save e now d)))
       = map ec_command (db_execution_commands d) @ map tc_command (commands_ordered (e_task e))"
proof -
  obtain i e' d1 where ms: "model_save e now d = (i, e', d1)"
    by (cases "model_save e now d") auto
  with assms have "snd (save e now d)
      = foldl (\<lambda>d2 command. create_execution_commands i (e_environment e') command d2)
          d1 (commands_ordered (e_task e'))"
    by (simp add: save_def)
  with model_save_plan[OF ms] model_save_task[OF ms] show ?thesis
    by (simp add: foldl_create_texts)
qed

theorem save_stores_raw_command_text_witness:
  "is_new demo_execution \<and>
   map ec_command (db_execution_commands (snd (save demo_execution 0 empty_db)))
     = [''deploy ${gun_task}'']"
  using save_stores_raw_command_text[of demo_execution 0 empty_db]
  by (simp add: is_new_def demo_defs commands_ordered_def)

lemma demo_globals:
  "global_parameter_values saved_execution =
     [(''gun_application'', ''shop''), (''gun_environment'', ''prod''), (''gun_task'', ''release''),
      (''gun_user'', ''ops@example.org''), (''gun_time'', ''0'')]"
  by (simp add: saved_execution_eval global_parameter_values_def demo_defs str_int_def str_nat.simps)

text \<open>
  C2, as stated, fails: after the first save of \<open>demo_execution\<close> the stored text is the
  raw \<open>deploy ${gun_task}\<close>, while the Parameter Resolver for that execution turns this
  text into \<open>deploy release\<close>.
\<close>

theorem raw_text_not_substituted_counterexample:
  "map ec_command (db_execution_commands saved_db) = [''deploy ${gun_task}''] \<and>
   process (global_parameter_values saved_execution) (execution_parameters saved_db 1)
     ''deploy ${gun_task}'' = ''deploy release''"
  by (simp add: saved_db_commands demo_globals)
     (simp add: process_def process_global_parameters_def process_parameters_def
        execution_parameters_def parameter_format_def demo_defs save_defs)

lemma filter_roles_in_none:
  assumes "\<forall>s \<in> set servers. set (server_roles s) \<inter> set roles = {}"
  shows "filter_roles_in servers roles = []"
proof -
  have "\<And>s. s \<in> set servers \<Longrightarrow> filter (\<lambda>r. r \<in> set roles) (server_roles s) = []"
    using assms by (auto simp: filter_empty_conv)
  then show ?thesis by (simp add: filter_roles_in_def)
qed

text \<open>
  C7. Materializing a command none of whose roles is carried by a server of the environment
  adds its ExecutionCommand row (with the command's text and roles) and leaves the table of
  ExecutionCommandServer units as it was; nothing on this path can fail.
\<close>

theorem command_without_servers_still_materialized:
  assumes "\<forall>s \<in> set (environment_servers env). set (server_roles s) \<inter> set (tc_roles command) = {}"
  shows "db_execution_commands (create_execution_commands i env command d)
           = db_execution_commands d @
             [\<lparr>ec_id = fresh_id (map ec_id (db_execution_commands d)), ec_execution = i,
               ec_command = tc_command command, ec_roles = foldl m2m_add [] (tc_roles command)\<rparr>]
       \<and> db_execution_command_servers (create_execution_commands i env command d)
           = db_execution_command_servers d"
  using filter_roles_in_none[OF assms]
  by (simp add: create_execution_commands_rows)
     (simp add: create_execution_commands_def create_execution_commands_servers_def Let_def)

theorem command_without_servers_still_materialized_witness:
  "environment_servers demo_environment = [\<lparr>server_id = 1, server_roles = [1, 2]\<rparr>] \<and>
   set [1, 2] \<inter> set (tc_roles idle_command) = {} \<and>
   map ec_command (db_execution_commands (create_execution_commands 1 demo_environment idle_command saved_db))
     = [''deploy ${gun_task}'', ''echo idle''] \<and>
   db_execution_command_servers (create_execution_commands 1 demo_environment idle_command saved_db)
     = db_execution_command_servers saved_db"
  using command_without_servers_still_materialized[of demo_environment idle_command 1 saved_db]
  by (simp add: saved_db_commands) (simp add: demo_defs)

text \<open>
  C8. Saving an execution that is already persisted (it has a primary key, and automatic
  keys start at 1) only writes the execution row: the ExecutionCommand and
  ExecutionCommandServer tables are left exactly as they were.
\<close>

theorem save_persisted_keeps_plan:
  assumes "e_id e = Some i" and "0 < i"
  shows "db_execution_commands (snd (save e now d)) = db_execution_commands d \<and>
         db_execution_command_servers (snd (save e now d)) = db_execution_command_servers d"
proof -
  obtain j e' d1 where ms: "model_save e now d = (j, e', d1)"
    by (cases "model_save e now d") auto
  from assms have "\<not> is_new e" by (simp add: is_new_def)
  with ms have "snd (save e now d) = d1" by (simp add: save_def)
  with model_save_plan[OF ms] show ?thesis by simp
qed

theorem save_persisted_keeps_plan_witness:
  "e_id saved_execution = Some 1 \<and> (0::nat) < 1 \<and>
   db_execution_commands (snd (save saved_execution 7 saved_db)) = db_execution_commands saved_db \<and>
   db_execution_command_servers (snd (save saved_execution 7 saved_db))
     = db_execution_command_servers saved_db \<and>
   length (db_execution_commands saved_db) = 1"
  using save_persisted_keeps_plan[of saved_execution 1 7 saved_db]
  by (simp add: saved_execution_eval saved_db_commands)

section \<open>Dispatch\<close>

text \<open>
  C4, as the code has it. \<open>start\<close> never looks at the status: every call enqueues exactly one
  unit of work carrying the execution's id, after whatever is queued already.
\<close>

theorem start_always_enqueues:
  "start e q = q @ [e_id e] \<and> length (start e q) = Suc (length q)"
  by (simp add: start_def delay_def)

text \<open>
  C4, as stated, fails: \<open>running_execution\<close> is RUNNING and was dispatched once already, and
  a second \<open>start\<close> puts a second unit of work for it on the queue.
\<close>

theorem start_not_guarded_counterexample:
  "e_status running_execution \<noteq> PENDING \<and>
   start running_execution [Some 1] = [Some 1, Some 1]"
  by (simp add: start_def delay_def running_execution_def demo_execution_def)

section \<open>Live log\<close>

text \<open>
  C3. The read is meant to return the concatenated payloads recorded for the unit. As
  written it raises AttributeError for every unit and every database: an
  ExecutionCommandServer has no \<open>live_logs\<close> relation.
\<close>

theorem get_live_log_output_raises:
  "get_live_log_output d self = Inl (AttributeError ''live_logs'')"
  by (simp add: get_live_log_output_def ecs_related_manager_def)

section \<open>ParameterParser: how one replacement acts on a text\<close>

lemma replace_str_hit:
  "old \<noteq> [] \<Longrightarrow> replace_str old new (old @ s) = new @ replace_str old new s"
  by (cases old) auto

lemma replace_str_skip:
  "old \<noteq> [] \<Longrightarrow> hd old \<notin> set ys \<Longrightarrow> replace_str old new (ys @ s) = ys @ replace_str old new s"
proof (induction ys)
  case Nil then show ?case by simp
next
  case (Cons y ys)
  then have "\<not> prefix old (y # ys @ s)" by (cases old) auto
  with Cons show ?case by simp
qed

lemma parameter_format_nonempty: "parameter_format n \<noteq> []"
  by (simp add: parameter_format_def)

lemma hd_parameter_format: "hd (parameter_format n) = CHR ''$''"
  by (simp add: parameter_format_def)

lemma fmt_no_dollar_tail:
  assumes "CHR ''$'' \<notin> set n" "0 < i" "i < length (parameter_format n)"
  shows "parameter_format n ! i \<noteq> CHR ''$''"
proof -
  from assms obtain j where j: "i = Suc j" by (cases i) auto
  with assms have "j < length (CHR ''{'' # n @ ''}'')"
    by (simp add: parameter_format_def)
  then have "(CHR ''{'' # n @ ''}'') ! j \<in> set (CHR ''{'' # n @ ''}'')"
    by (rule nth_mem)
  moreover have "parameter_format n ! i = (CHR ''{'' # n @ ''}'') ! j"
    using j by (simp add: parameter_format_def)
  ultimately show ?thesis using assms(1) by auto
qed

lemma prefix_stays_left:
  assumes "CHR ''$'' \<notin> set m" "pre \<noteq> []"
    and "prefix (parameter_format m) (pre @ CHR ''$'' # rest)"
  shows "prefix (parameter_format m) pre"
proof (rule ccontr)
  assume np: "\<not> prefix (parameter_format m) pre"
  have short: "length pre < length (parameter_format m)"
  proof (rule ccontr)
    assume "\<not> length pre < length (parameter_format m)"
    with assms(3) have "prefix (parameter_format m) pre"
      by (metis linorder_not_less prefix_length_prefix prefixI)
    with np show False by simp
  qed
  with assms(3) have "parameter_format m ! length pre = (pre @ CHR ''$'' # rest) ! length pre"
    by (metis nth_append prefix_def)
  with short show False using fmt_no_dollar_tail[OF assms(1), of "length pre"] assms(2) by auto
qed

lemma replace_str_split_dollar:
  assumes "CHR ''$'' \<notin> set m"
  shows "replace_str (parameter_format m) v (pre @ CHR ''$'' # rest)
       = replace_str (parameter_format m) v pre @ replace_str (parameter_format m) v (CHR ''$'' # rest)"
proof (induction "length pre" arbitrary: pre rule: less_induct)
  case less
  let ?old = "parameter_format m"
  have ne: "?old \<noteq> []" by (rule parameter_format_nonempty)
  show ?case
  proof (cases pre)
    case Nil then show ?thesis using ne by simp
  next
    case (Cons c cs)
    show ?thesis
    proof (cases "prefix ?old (pre @ CHR ''$'' # rest)")
      case True
      with assms Cons have p: "prefix ?old pre" using prefix_stays_left by blast
      then obtain r where r: "pre = ?old @ r" by (auto simp: prefix_def)
      with ne have "length r < length pre" by simp
      from less[OF this] show ?thesis using r ne by (simp add: replace_str_hit)
    next
      case False
      then have "\<not> prefix ?old pre" by (metis prefix_prefix)
      with False Cons ne less[of cs] show ?thesis by simp
    qed
  qed
qed

lemma takeWhile_until:
  "c \<notin> set m \<Longrightarrow> takeWhile (\<lambda>x. x \<noteq> c) (m @ c # x) = m"
  by (induction m) auto

lemma name_before_brace:
  assumes "m @ CHR ''}'' # x = n @ CHR ''}'' # y" "CHR ''}'' \<notin> set m" "CHR ''}'' \<notin> set n"
  shows "m = n"
proof -
  have "takeWhile (\<lambda>c. c \<noteq> CHR ''}'') (m @ CHR ''}'' # x) = m"
    using assms(2) by (rule takeWhile_until)
  moreover have "takeWhile (\<lambda>c. c \<noteq> CHR ''}'') (n @ CHR ''}'' # y) = n"
    using assms(3) by (rule takeWhile_until)
  ultimately show ?thesis using assms(1) by simp
qed

lemma other_placeholder_no_prefix:
  assumes "plain_name m" "plain_name n" "m \<noteq> n"
  shows "\<not> prefix (parameter_format m) (parameter_format n @ b)"
proof
  assume "prefix (parameter_format m) (parameter_format n @ b)"
  then obtain z where "parameter_format n @ b = parameter_format m @ z" by (auto simp: prefix_def)
  then have "m @ CHR ''}'' # z = n @ CHR ''}'' # b" by (simp add: parameter_format_def)
  with assms show False using name_before_brace by (auto simp: plain_name_def)
qed

lemma replace_str_keep:
  assumes "plain_name m" "plain_name n" "m \<noteq> n"
  shows "replace_str (parameter_format m) v (a @ parameter_format n @ b)
       = replace_str (parameter_format m) v a @ parameter_format n @ replace_str (parameter_format m) v b"
proof -
  let ?old = "parameter_format m"
  have ne: "?old \<noteq> []" by (rule parameter_format_nonempty)
  have d: "CHR ''$'' \<notin> set m" using assms(1) by (simp add: plain_name_def)
  have fmt: "parameter_format n @ b = CHR ''$'' # (CHR ''{'' # n @ ''}'') @ b"
    by (simp add: parameter_format_def)
  have "\<not> prefix ?old (CHR ''$'' # (CHR ''{'' # n @ ''}'') @ b)"
    using other_placeholder_no_prefix[OF assms, of b] fmt by simp
  then have "replace_str ?old v (CHR ''$'' # (CHR ''{'' # n @ ''}'') @ b)
           = CHR ''$'' # replace_str ?old v ((CHR ''{'' # n @ ''}'') @ b)"
    using ne by simp
  also have "replace_str ?old v ((CHR ''{'' # n @ ''}'') @ b) = (CHR ''{'' # n @ ''}'') @ replace_str ?old v b"
    using assms(2) by (intro replace_str_skip[OF ne]) (auto simp: hd_parameter_format plain_name_def)
  finally have "replace_str ?old v (parameter_format n @ b) = parameter_format n @ replace_str ?old v b"
    by (simp add: parameter_format_def)
  moreover have "replace_str ?old v (a @ parameter_format n @ b)
      = replace_str ?old v a @ replace_str ?old v (parameter_format n @ b)"
    using replace_str_split_dollar[OF d, of v a "(CHR ''{'' # n @ ''}'') @ b"] by (simp add: parameter_format_def)
  ultimately show ?thesis by simp
qed

lemma replace_str_at:
  assumes "CHR ''$'' \<notin> set n"
  shows "replace_str (parameter_format n) v (a @ parameter_format n @ b)
       = replace_str (parameter_format n) v a @ v @ replace_str (parameter_format n) v b"
proof -
  have "replace_str (parameter_format n) v (a @ parameter_format n @ b)
      = replace_str (parameter_format n) v a @ replace_str (parameter_format n) v (parameter_format n @ b)"
    using replace_str_split_dollar[OF assms, of v a "(CHR ''{'' # n @ ''}'') @ b"] by (simp add: parameter_format_def)
  then show ?thesis by (simp add: replace_str_hit parameter_format_nonempty)
qed

section \<open>ParameterParser: a sequence of replacements\<close>

lemma subst_all_Nil: "subst_all [] t = t"
  by (simp add: subst_all_def)

lemma subst_all_Cons: "subst_all (p # ps) t = subst_all ps (subst_step t p)"
  by (simp add: subst_all_def)

lemma subst_all_append: "subst_all (ps @ qs) t = subst_all qs (subst_all ps t)"
  by (simp add: subst_all_def)

lemma subst_all_keep:
  assumes "plain_name n" "\<forall>m \<in> fst ` set ps. plain_name m \<and> m \<noteq> n"
  shows "subst_all ps (a @ parameter_format n @ b)
       = subst_all ps a @ parameter_format n @ subst_all ps b"
  using assms(2)
proof (induction ps arbitrary: a b)
  case Nil
  then show ?case by (simp add: subst_all_Nil)
next
  case (Cons p ps)
  then have "plain_name (fst p)" "fst p \<noteq> n" by auto
  then have "subst_step (a @ parameter_format n @ b) p
      = subst_step a p @ parameter_format n @ subst_step b p"
    using assms(1) by (simp add: subst_step_def replace_str_keep)
  with Cons show ?case by (simp add: subst_all_Cons)
qed

lemma subst_all_at:
  assumes "plain_name n" "\<forall>m \<in> fst ` set ps1. plain_name m \<and> m \<noteq> n"
  shows "subst_all (ps1 @ (n, v) # ps2) (a @ parameter_format n @ b)
       = subst_all ps2 (subst_all (ps1 @ [(n, v)]) a @ v @ subst_all (ps1 @ [(n, v)]) b)"
proof -
  have d: "CHR ''$'' \<notin> set n" using assms(1) by (simp add: plain_name_def)
  have "subst_step (subst_all ps1 a @ parameter_format n @ subst_all ps1 b) (n, v)
      = subst_step (subst_all ps1 a) (n, v) @ v @ subst_step (subst_all ps1 b) (n, v)"
    using replace_str_at[OF d] by (simp add: subst_step_def)
  then show ?thesis
    by (simp add: subst_all_append subst_all_Cons subst_all_Nil subst_all_keep[OF assms])
qed

lemma subst_all_token:
  assumes "plain_name n" "\<forall>k \<in> fst ` set ps1. plain_name k \<and> k \<noteq> n"
    and "plain_name m" "\<forall>k \<in> fst ` set ps2. plain_name k \<and> k \<noteq> m"
  shows "subst_all (ps1 @ (n, x @ parameter_format m @ y) # ps2) (a @ parameter_format n @ b)
       = subst_all ps2 (subst_all (ps1 @ [(n, x @ parameter_format m @ y)]) a @ x)
         @ parameter_format m
         @ subst_all ps2 (y @ subst_all (ps1 @ [(n, x @ parameter_format m @ y)]) b)"
proof -
  let ?P = "subst_all (ps1 @ [(n, x @ parameter_format m @ y)])"
  have "subst_all (ps1 @ (n, x @ parameter_format m @ y) # ps2) (a @ parameter_format n @ b)
      = subst_all ps2 ((?P a @ x) @ parameter_format m @ (y @ ?P b))"
    using subst_all_at[OF assms(1,2)] by simp
  also have "\<dots> = subst_all ps2 (?P a @ x) @ parameter_format m @ subst_all ps2 (y @ ?P b)"
    by (rule subst_all_keep[OF assms(3,4)])
  finally show ?thesis .
qed

lemma process_global_parameters_subst: "process_global_parameters items cmd = subst_all items cmd"
proof -
  have "(\<lambda>cmd (name, value). replace_str (parameter_format name) value cmd) = subst_step"
    by (intro ext) (simp add: subst_step_def split: prod.splits)
  then show ?thesis by (simp add: process_global_parameters_def subst_all_def)
qed

lemma process_parameters_subst:
  "process_parameters params cmd = subst_all (map param_pair params) cmd"
proof -
  have "(\<lambda>cmd param. replace_str (parameter_format (ep_name param)) (ep_value param) cmd)
      = (\<lambda>cmd param. subst_step cmd (param_pair param))"
    by (intro ext) (simp add: subst_step_def param_pair_def)
  then show ?thesis by (simp add: process_parameters_def subst_all_def foldl_map)
qed

lemma process_subst: "process items params cmd = subst_all (items @ map param_pair params) cmd"
  by (simp add: process_def process_global_parameters_subst process_parameters_subst subst_all_append)

lemma global_names_map: "map fst (global_parameter_values e) = global_parameter_names"
  by (simp add: global_parameter_values_def global_parameter_names_def)

lemma global_names_plain: "\<forall>n \<in> set global_parameter_names. plain_name n"
  by (simp add: global_parameter_names_def plain_name_def)

lemma global_names_distinct: "distinct global_parameter_names"
  by (simp add: global_parameter_names_def)

lemma items_names:
  assumes "mset items = mset (global_parameter_values e)"
  shows "fst ` set items = set global_parameter_names" and "distinct (map fst items)"
proof -
  from assms have m: "mset (map fst items) = mset global_parameter_names"
    by (metis global_names_map mset_map)
  then show "fst ` set items = set global_parameter_names"
    by (metis mset_eq_setD set_map)
  from m show "distinct (map fst items)"
    by (metis global_names_distinct mset_eq_imp_distinct_iff)
qed

lemma user_names: "fst ` set (map param_pair us) = ep_name ` set us"
  by (simp add: image_image param_pair_def)

lemma items_plain:
  assumes "mset items = mset (global_parameter_values e)"
  shows "\<forall>k \<in> fst ` set items. plain_name k"
  using items_names(1)[OF assms] global_names_plain by simp

lemma sequence_names:
  assumes "mset items = mset (global_parameter_values e)"
    and "n \<notin> set global_parameter_names"
    and "\<forall>q \<in> set us. plain_name (ep_name q) \<and> ep_name q \<noteq> n"
  shows "\<forall>k \<in> fst ` set (items @ map param_pair us). plain_name k \<and> k \<noteq> n"
proof
  fix k assume "k \<in> fst ` set (items @ map param_pair us)"
  then have "k \<in> fst ` set items \<union> fst ` set (map param_pair us)"
    by (simp add: image_Un)
  then consider "k \<in> fst ` set items" | "k \<in> ep_name ` set us"
    unfolding user_names by blast
  then show "plain_name k \<and> k \<noteq> n"
  proof cases
    case 1
    then have "k \<in> set global_parameter_names" using items_names(1)[OF assms(1)] by simp
    with global_names_plain assms(2) show ?thesis by auto
  next
    case 2
    with assms(3) show ?thesis by auto
  qed
qed

lemma odd_globals:
  "global_parameter_values odd_execution =
     [(''gun_application'', ''shop''), (''gun_environment'', ''prod''), (''gun_task'', ''release''),
      (''gun_user'', ''${env}@example.org''), (''gun_time'', ''0'')]"
  by (simp add: odd_execution_def global_parameter_values_def demo_defs str_int_def str_nat.simps)

section \<open>ParameterParser: the two passes\<close>

text \<open>
  C5. The globals are substituted before the user parameters. First conjunct: an occurrence
  of the placeholder of a global in the command text receives the value of the global
  during the global pass, and the user parameters, one named like the global included,
  only see the text that results. Second conjunct: the value of a user parameter is put in
  during the user pass and from then on goes through the later user parameters only, never
  through the globals, so a \<open>${gun_task}\<close> token in it is not given the global's value.
\<close>

theorem globals_substituted_before_user_parameters:
  assumes "mset items = mset (global_parameter_values e)"
  shows "(items = gs1 @ (g, gv) # gs2 \<longrightarrow>
            process items params (a @ parameter_format g @ b)
              = process_parameters params
                  (process_global_parameters gs2
                     (process_global_parameters (gs1 @ [(g, gv)]) a @ gv
                      @ process_global_parameters (gs1 @ [(g, gv)]) b)))
       \<and> ((\<forall>q \<in> set us1. plain_name (ep_name q) \<and> ep_name q \<noteq> ep_name p)
            \<and> plain_name (ep_name p) \<and> ep_name p \<notin> set global_parameter_names \<longrightarrow>
            process items (us1 @ p # us2) (c @ parameter_format (ep_name p) @ d)
              = process_parameters us2
                  (process items (us1 @ [p]) c @ ep_value p @ process items (us1 @ [p]) d))"
proof (intro conjI impI)
  assume split: "items = gs1 @ (g, gv) # gs2"
  from items_names(2)[OF assms] split have "g \<notin> fst ` set gs1" by auto
  moreover from items_plain[OF assms] split have "plain_name g" "\<forall>k \<in> fst ` set gs1. plain_name k"
    by auto
  ultimately have "\<forall>k \<in> fst ` set gs1. plain_name k \<and> k \<noteq> g" by auto
  from subst_all_at[OF \<open>plain_name g\<close> this, of gv gs2 a b] split
  show "process items params (a @ parameter_format g @ b)
      = process_parameters params
          (process_global_parameters gs2
             (process_global_parameters (gs1 @ [(g, gv)]) a @ gv
              @ process_global_parameters (gs1 @ [(g, gv)]) b))"
    by (simp add: process_def process_global_parameters_subst)
next
  assume h: "(\<forall>q \<in> set us1. plain_name (ep_name q) \<and> ep_name q \<noteq> ep_name p)
     \<and> plain_name (ep_name p) \<and> ep_name p \<notin> set global_parameter_names"
  then have "\<forall>k \<in> fst ` set (items @ map param_pair us1). plain_name k \<and> k \<noteq> ep_name p"
    using sequence_names[OF assms] by blast
  from subst_all_at[OF _ this, of "ep_value p" "map param_pair us2" c d] h
  show "process items (us1 @ p # us2) (c @ parameter_format (ep_name p) @ d)
      = process_parameters us2
          (process items (us1 @ [p]) c @ ep_value p @ process items (us1 @ [p]) d)"
    by (simp add: process_subst process_parameters_subst param_pair_def)
qed

theorem globals_substituted_before_user_parameters_witness:
  "mset (global_parameter_values saved_execution) = mset (global_parameter_values saved_execution) \<and>
   global_parameter_values saved_execution
     = [(''gun_application'', ''shop''), (''gun_environment'', ''prod'')]
       @ (''gun_task'', ''release'') # [(''gun_user'', ''ops@example.org''), (''gun_time'', ''0'')] \<and>
   process (global_parameter_values saved_execution) [param_shadow, param_env]
     ''deploy ${gun_task} to ${env}'' = ''deploy release to prod'' \<and>
   plain_name (ep_name param_note) \<and> ep_name param_note \<notin> set global_parameter_names \<and>
   process (global_parameter_values saved_execution) [param_note] ''echo ${note}''
     = ''echo see ${gun_task}''"
  using globals_substituted_before_user_parameters[where items = "global_parameter_values saved_execution"
      and e = saved_execution
      and ?gs1.0 = "[(''gun_application'', ''shop''), (''gun_environment'', ''prod'')]"
      and g = "''gun_task''" and gv = "''release''"
      and ?gs2.0 = "[(''gun_user'', ''ops@example.org''), (''gun_time'', ''0'')]"
      and params = "[param_shadow, param_env]" and a = "''deploy ''" and b = "'' to ${env}''"
      and ?us1.0 = "[]" and p = param_note and ?us2.0 = "[]" and c = "''echo ''" and d = "[]"]
  by (simp add: demo_globals param_defs plain_name_def global_parameter_names_def process_defs)

text \<open>
  C6, as the code has it. Parameters are applied one after the other, each by one literal
  replacement: the globals, then the user parameters in order. A placeholder token \<open>${m}\<close>
  inside the value of a parameter stays unexpanded in the output provided no parameter named
  \<open>m\<close> is applied after that parameter (for the value of a global: no later global and no
  user parameter; for the value of a user parameter: no later user parameter). The
  replacement that puts the value in and the ones before it never scan it.
\<close>

theorem token_in_value_kept_unless_applied_later:
  assumes "mset items = mset (global_parameter_values e)" and "plain_name m"
  shows "(items = gs1 @ (g, x @ parameter_format m @ y) # gs2
            \<and> m \<notin> fst ` set gs2
            \<and> (\<forall>q \<in> set params. plain_name (ep_name q) \<and> ep_name q \<noteq> m) \<longrightarrow>
            process items params (a @ parameter_format g @ b)
              = process gs2 params
                  (process_global_parameters (gs1 @ [(g, x @ parameter_format m @ y)]) a @ x)
                @ parameter_format m
                @ process gs2 params
                  (y @ process_global_parameters (gs1 @ [(g, x @ parameter_format m @ y)]) b))
       \<and> ((\<forall>q \<in> set us1. plain_name (ep_name q) \<and> ep_name q \<noteq> ep_name p)
            \<and> plain_name (ep_name p) \<and> ep_name p \<notin> set global_parameter_names
            \<and> ep_value p = x @ parameter_format m @ y
            \<and> (\<forall>q \<in> set us2. plain_name (ep_name q) \<and> ep_name q \<noteq> m) \<longrightarrow>
            process items (us1 @ p # us2) (c @ parameter_format (ep_name p) @ d)
              = process_parameters us2 (process items (us1 @ [p]) c @ x)
                @ parameter_format m
                @ process_parameters us2 (y @ process items (us1 @ [p]) d))"
proof (intro conjI impI)
  assume h: "items = gs1 @ (g, x @ parameter_format m @ y) # gs2 \<and> m \<notin> fst ` set gs2
     \<and> (\<forall>q \<in> set params. plain_name (ep_name q) \<and> ep_name q \<noteq> m)"
  then have split: "items = gs1 @ (g, x @ parameter_format m @ y) # gs2" by simp
  from items_names(2)[OF assms(1)] split have "g \<notin> fst ` set gs1" by auto
  moreover from items_plain[OF assms(1)] split
  have pg: "plain_name g" and p1: "\<forall>k \<in> fst ` set gs1. plain_name k"
    and p2: "\<forall>k \<in> fst ` set gs2. plain_name k" by auto
  ultimately have e1: "\<forall>k \<in> fst ` set gs1. plain_name k \<and> k \<noteq> g" by auto
  have e2: "\<forall>k \<in> fst ` set (gs2 @ map param_pair params). plain_name k \<and> k \<noteq> m"
    using h p2 by (auto simp: param_pair_def)
  from subst_all_token[OF pg e1 assms(2) e2, of x y a b] split
  show "process items params (a @ parameter_format g @ b)
      = process gs2 params
          (process_global_parameters (gs1 @ [(g, x @ parameter_format m @ y)]) a @ x)
        @ parameter_format m
        @ process gs2 params
          (y @ process_global_parameters (gs1 @ [(g, x @ parameter_format m @ y)]) b)"
    by (simp add: process_subst process_global_parameters_subst)
next
  assume h: "(\<forall>q \<in> set us1. plain_name (ep_name q) \<and> ep_name q \<noteq> ep_name p)
     \<and> plain_name (ep_name p) \<and> ep_name p \<notin> set global_parameter_names
     \<and> ep_value p = x @ parameter_format m @ y
     \<and> (\<forall>q \<in> set us2. plain_name (ep_name q) \<and> ep_name q \<noteq> m)"
  then have e1: "\<forall>k \<in> fst ` set (items @ map param_pair us1). plain_name k \<and> k \<noteq> ep_name p"
    using sequence_names[OF assms(1)] by blast
  have e2: "\<forall>k \<in> fst ` set (map param_pair us2). plain_name k \<and> k \<noteq> m"
    using h by (auto simp: param_pair_def)
  from h have pn: "plain_name (ep_name p)" by simp
  from subst_all_token[OF pn e1 assms(2) e2, of x y c d] h
  show "process items (us1 @ p # us2) (c @ parameter_format (ep_name p) @ d)
      = process_parameters us2 (process items (us1 @ [p]) c @ x)
        @ parameter_format m
        @ process_parameters us2 (y @ process items (us1 @ [p]) d)"
    by (simp add: process_subst process_parameters_subst param_pair_def)
qed

theorem token_in_value_kept_unless_applied_later_witness:
  "mset (global_parameter_values odd_execution) = mset (global_parameter_values odd_execution) \<and>
   plain_name ''env'' \<and>
   global_parameter_values odd_execution
     = [(''gun_application'', ''shop''), (''gun_environment'', ''prod''), (''gun_task'', ''release'')]
       @ (''gun_user'', [] @ parameter_format ''env'' @ ''@example.org'') # [(''gun_time'', ''0'')] \<and>
   ''env'' \<notin> fst ` set [(''gun_time'', ''0'')] \<and>
   plain_name (ep_name param_shadow) \<and> ep_name param_shadow \<noteq> ''env'' \<and>
   process (global_parameter_values odd_execution) [param_shadow] ''mail ${gun_user}''
     = ''mail ${env}@example.org'' \<and>
   plain_name (ep_name param_contact) \<and> ep_name param_contact \<notin> set global_parameter_names \<and>
   ep_value param_contact = [] @ parameter_format ''env'' @ ''@example.org'' \<and>
   process (global_parameter_values odd_execution) [param_contact, param_shadow] ''mail ${contact}''
     = ''mail ${env}@example.org''"
  using token_in_value_kept_unless_applied_later[where items = "global_parameter_values odd_execution"
      and e = odd_execution and m = "''env''"
      and ?gs1.0 = "[(''gun_application'', ''shop''), (''gun_environment'', ''prod''), (''gun_task'', ''release'')]"
      and g = "''gun_user''" and x = "[]" and y = "''@example.org''"
      and ?gs2.0 = "[(''gun_time'', ''0'')]" and params = "[param_shadow]"
      and a = "''mail ''" and b = "[]"
      and ?us1.0 = "[]" and p = param_contact and ?us2.0 = "[param_shadow]"
      and c = "''mail ''" and d = "[]"]
  by (simp add: odd_globals param_defs plain_name_def global_parameter_names_def process_defs)

text \<open>
  C6, as stated, fails: with user parameters \<open>a = ${b}\<close> and \<open>b = ${a}\<close>, in either order, the
  token inside the value of the parameter applied first is expanded by the parameter applied
  second, so \<open>${a} ${b}\<close> does not resolve to \<open>${b} ${a}\<close>.
\<close>

theorem value_token_expanded_counterexample:
  "process (global_parameter_values saved_execution) [param_a, param_b] ''${a} ${b}'' = ''${a} ${a}'' \<and>
   process (global_parameter_values saved_execution) [param_b, param_a] ''${a} ${b}'' = ''${b} ${b}''"
  by (simp add: demo_globals param_defs process_defs)

text \<open>
  C9. Take any arrangement of the globals of an execution and any user parameters with
  plain names. A placeholder whose (plain) name is neither a global name nor the name of a
  user parameter stays in the output exactly where it was, whatever surrounds it; the
  resolution is a total function, so no error is raised.
\<close>

theorem unmatched_placeholder_left_verbatim:
  assumes "mset items = mset (global_parameter_values e)"
    and "plain_name n" and "n \<notin> set global_parameter_names"
    and "\<forall>p \<in> set params. plain_name (ep_name p) \<and> ep_name p \<noteq> n"
  shows "process items params (a @ parameter_format n @ b)
       = process items params a @ parameter_format n @ process items params b"
proof -
  have "\<forall>k \<in> fst ` set (items @ map param_pair params). plain_name k \<and> k \<noteq> n"
    by (rule sequence_names[OF assms(1,3,4)])
  from subst_all_keep[OF assms(2) this] show ?thesis by (simp add: process_subst)
qed

theorem unmatched_placeholder_left_verbatim_witness:
  "mset (global_parameter_values saved_execution) = mset (global_parameter_values saved_execution) \<and>
   plain_name ''version'' \<and> ''version'' \<notin> set global_parameter_names \<and>
   plain_name (ep_name param_env) \<and> ep_name param_env \<noteq> ''version'' \<and>
   process (global_parameter_values saved_execution) [param_env] ''deploy ${version} to ${env}''
     = ''deploy ${version} to prod''"
  using unmatched_placeholder_left_verbatim[where items = "global_parameter_values saved_execution"
      and e = saved_execution and n = "''version''" and params = "[param_env]"
      and a = "''deploy ''" and b = "'' to ${env}''"]
  by (simp add: demo_globals param_defs plain_name_def global_parameter_names_def process_defs)

text \<open>
  C10. In either pass, take the first parameter named \<open>n\<close> and any occurrence of its
  placeholder in the text the pass receives, that is any way of writing the text as
  \<open>a @ ${n} @ b\<close>: when that parameter has been applied the occurrence has become its value,
  and so has every occurrence in \<open>a\<close> and in \<open>b\<close>, which the same replacements process.
  The parameters applied afterwards then work on the result.
\<close>

theorem every_occurrence_replaced:
  assumes "plain_name n"
  shows "((\<forall>m \<in> fst ` set gs1. plain_name m \<and> m \<noteq> n) \<longrightarrow>
            process_global_parameters (gs1 @ (n, v) # gs2) (a @ parameter_format n @ b)
              = process_global_parameters gs2
                  (process_global_parameters (gs1 @ [(n, v)]) a @ v
                   @ process_global_parameters (gs1 @ [(n, v)]) b))
       \<and> ((\<forall>q \<in> set us1. plain_name (ep_name q) \<and> ep_name q \<noteq> n) \<and> ep_name p = n \<longrightarrow>
            process_parameters (us1 @ p # us2) (a @ parameter_format n @ b)
              = process_parameters us2
                  (process_parameters (us1 @ [p]) a @ ep_value p
                   @ process_parameters (us1 @ [p]) b))"
proof (intro conjI impI)
  assume "\<forall>m \<in> fst ` set gs1. plain_name m \<and> m \<noteq> n"
  from subst_all_at[OF assms this]
  show "process_global_parameters (gs1 @ (n, v) # gs2) (a @ parameter_format n @ b)
      = process_global_parameters gs2
          (process_global_parameters (gs1 @ [(n, v)]) a @ v
           @ process_global_parameters (gs1 @ [(n, v)]) b)"
    by (simp add: process_global_parameters_subst)
next
  assume h: "(\<forall>q \<in> set us1. plain_name (ep_name q) \<and> ep_name q \<noteq> n) \<and> ep_name p = n"
  then have "\<forall>m \<in> fst ` set (map param_pair us1). plain_name m \<and> m \<noteq> n"
    by (auto simp: param_pair_def)
  from subst_all_at[OF assms this, of "ep_value p" "map param_pair us2" a b] h
  show "process_parameters (us1 @ p # us2) (a @ parameter_format n @ b)
      = process_parameters us2
          (process_parameters (us1 @ [p]) a @ ep_value p @ process_parameters (us1 @ [p]) b)"
    by (simp add: process_parameters_subst param_pair_def)
qed

theorem every_occurrence_replaced_witness:
  "plain_name ''gun_task'' \<and>
   plain_name ''gun_application'' \<and> ''gun_application'' \<noteq> ''gun_task'' \<and>
   process_global_parameters [(''gun_application'', ''shop''), (''gun_task'', ''release'')]
     ''tag ${gun_task} as ${gun_task}'' = ''tag release as release'' \<and>
   plain_name (ep_name param_env) \<and> ep_name param_env \<noteq> ''gun_task'' \<and>
   ep_name param_shadow = ''gun_task'' \<and>
   process_parameters [param_env, param_shadow] ''tag ${gun_task} as ${gun_task}''
     = ''tag evil as evil''"
  using every_occurrence_replaced[where n = "''gun_task''" and ?gs1.0 = "[(''gun_application'', ''shop'')]"
      and v = "''release''" and ?gs2.0 = "[]" and a = "''tag ''" and b = "'' as ${gun_task}''"
      and ?us1.0 = "[param_env]" and p = param_shadow and ?us2.0 = "[]"]
  by (simp add: param_defs plain_name_def process_defs)

end
